theory Spec2Isabelle
  imports Complex_Main
begin

section \<open>AFC lane control and motor assist: a shallow embedding\<close>

text \<open>
  The development follows \<^verbatim>\<open>extras/wheel_sensor.py\<close> and \<^verbatim>\<open>extras/AFC_stepper.py\<close>.
  Python floats are read as real numbers, so rounding is not part of the model.
  A Python exception is a value of \<open>py_error\<close>; a function that can raise returns
  either a sum (\<open>Inl\<close> is the exception) or, when it also mutates the object, a pair of
  an optional exception and the state reached when it was raised. \<open>BackendError\<close> stands for
  an exception raised by the motion backend.
\<close>

datatype py_error = ZeroDivisionError | ValueError | TypeError | BackendError

type_synonym rpm_sample = "real option \<times> real option"

text \<open>Float division raises on a zero divisor.\<close>

definition py_div :: "real \<Rightarrow> real \<Rightarrow> py_error + real" where
  "py_div a b = (if b = 0 then Inl ZeroDivisionError else Inr (a / b))"

text \<open>\<^verbatim>\<open>math.sqrt\<close> raises \<^verbatim>\<open>ValueError\<close> (math domain error) below zero.\<close>

definition py_sqrt :: "real \<Rightarrow> py_error + real" where
  "py_sqrt x = (if x < 0 then Inl ValueError else Inr (sqrt x))"

subsection \<open>\<^verbatim>\<open>wheel_sensor.py\<close>: StandaloneWheelSensor\<close>

text \<open>
  The fields of the sensor object that \<^verbatim>\<open>_edge_callback\<close> and \<^verbatim>\<open>get_rpm\<close> touch.
  The constructor reads \<^verbatim>\<open>pulses_per_rev\<close> with \<^verbatim>\<open>minval=0.1\<close>.
\<close>

record standalone_wheel_sensor =
  pulses_per_rev :: real
  pulse_count :: int
  prev_state :: bool
  last_time :: real

definition edge_callback :: "bool \<Rightarrow> standalone_wheel_sensor \<Rightarrow> standalone_wheel_sensor" where
  "edge_callback state s =
     (let s1 = (if \<not> prev_state s \<and> state then s\<lparr>pulse_count := pulse_count s + 1\<rparr> else s)
      in s1\<lparr>prev_state := state\<rparr>)"


subsection \<open>\<^verbatim>\<open>AFC_stepper.py\<close>: the lane object\<close>

text \<open>
  \<^verbatim>\<open>AFC_assist.AFCassistMotor\<close> is not part of the sources at hand; \<^verbatim>\<open>assist\<close> reads
  only the two attributes below and writes the pin through \<^verbatim>\<open>_set_pin\<close>.
\<close>

record motor =
  scale :: real
  is_pwm :: bool

datatype channel = Rwd | Fwd | Enb

datatype message =
    CannotRewind | BaselineNotFound | RpmReport real real | TensionDetected real | FailedToLoad

datatype event =
    AssistCall real
  | SetPin channel real
  | FlagSet
  | FlagCleared
  | Segment real real real real real real
  | MotorEnable bool
  | Info message
  | AFCError message
  | LedFault

record lane_config =
  afc_motor_rwd :: "motor option"
  afc_motor_fwd :: "motor option"
  afc_motor_enb :: "motor option"
  wheel_sensor :: "(nat \<Rightarrow> rpm_sample) option"
  tension_baseline_min_rpm :: real
  tension_drop_fraction :: real
  tension_max_time :: real
  wheel_follow_pwm :: real
  wheel_follow_min_rpm :: real
  filament_diameter :: real
  filament_density :: real
  inner_diameter :: real
  empty_spool_weight :: real
  max_motor_rpm :: real
  rwd_speed_multi :: real
  fwd_speed_multi :: real
  max_move_dis :: real
  n20_break_delay_time :: real
  load :: "string option"

record lane =
  remaining_weight :: real
  wheel_follow_paused :: bool
  assist_activate :: bool
  now :: real
  sensor_calls :: nat
  load_state :: bool
  prep_state :: bool
  status :: "string option"
  trace :: "event list"

text \<open>
  The attributes of \<^verbatim>\<open>AFCExtruderStepper\<close> are split in two records. \<open>lane_config\<close>
  holds what is assigned while the object is built and connected and is only read
  afterwards; \<open>lane\<close> holds what the methods below mutate. The bound wheel sensor is seen
  from the lane as the sequence of samples that its \<^verbatim>\<open>get_rpm\<close> calls return
  (\<open>sensor_calls\<close> counts them), so that every sensor behaviour is one such sequence.
  \<open>now\<close> is the reactor clock: it moves only when the code pauses, and a pause wakes up
  exactly at the requested time. \<open>trace\<close> is the history of what the lane did: calls
  of \<^verbatim>\<open>assist\<close>, pin writes queued on the toolhead, writes of
  \<^verbatim>\<open>_wheel_follow_paused\<close>, segments handed to the motion queue (with the signed
  distance of the segment first), stepper enables, messages and LED changes.
\<close>

type_synonym outcome = "py_error option \<times> lane"

definition emit :: "event \<Rightarrow> lane \<Rightarrow> lane" where
  "emit e st = st\<lparr>trace := trace st @ [e]\<rparr>"

definition reactor_pause :: "real \<Rightarrow> lane \<Rightarrow> lane" where
  "reactor_pause waketime st = st\<lparr>now := max (now st) waketime\<rparr>"

definition sensor_get_rpm :: "lane_config \<Rightarrow> lane \<Rightarrow> rpm_sample \<times> lane" where
  "sensor_get_rpm cfg st =
     (case wheel_sensor cfg of
        None \<Rightarrow> ((None, None), st)
      | Some f \<Rightarrow> (f (sensor_calls st), st\<lparr>sensor_calls := Suc (sensor_calls st)\<rparr>))"

definition brake_n20 :: "lane_config \<Rightarrow> lane \<Rightarrow> lane" where
  "brake_n20 cfg st =
     (let st1 = emit (SetPin Enb 1) (emit (SetPin Rwd 1) st);
          st2 = (if afc_motor_fwd cfg \<noteq> None then emit (SetPin Fwd 1) st1 else st1);
          st3 = reactor_pause (now st2 + n20_break_delay_time cfg) st2;
          st4 = emit (SetPin Enb 0) (emit (SetPin Rwd 0) st3)
      in if afc_motor_fwd cfg \<noteq> None then emit (SetPin Fwd 0) st4 else st4)"

text \<open>
  \<open>drive\<close> is the end of \<^verbatim>\<open>assist\<close>, reached with the motor chosen for a nonzero
  value: scaling, snapping of a channel without PWM, the enable pin and the pin write.
\<close>

definition drive :: "lane_config \<Rightarrow> motor \<Rightarrow> channel \<Rightarrow> real \<Rightarrow> lane \<Rightarrow> outcome" where
  "drive cfg assit_motor ch value0 st =
     (case py_div value0 (scale assit_motor) of
        Inl e \<Rightarrow> (Some e, st)
      | Inr v \<Rightarrow>
          (let value = (if \<not> is_pwm assit_motor \<and> v \<notin> {0, 1}
                        then (if v > 0 then 1 else v) else v);
               st1 = (if afc_motor_enb cfg \<noteq> None
                      then emit (SetPin Enb (if value \<noteq> 0 then 1 else 0)) st else st)
           in (None, emit (SetPin ch value) st1)))"

definition assist :: "lane_config \<Rightarrow> real \<Rightarrow> lane \<Rightarrow> outcome" where
  "assist cfg value st0 =
     (let st = emit (AssistCall value) st0 in
      case afc_motor_rwd cfg of
        None \<Rightarrow> (None, st)
      | Some rwd \<Rightarrow>
          if value < 0 then drive cfg rwd Rwd (value * - 1) st
          else if value > 0 then
            (case afc_motor_fwd cfg of
               None \<Rightarrow> (None, st)
             | Some fwd \<Rightarrow> drive cfg fwd Fwd value st)
          else
            (if afc_motor_enb cfg \<noteq> None then (None, brake_n20 cfg st)
             else (None, emit (SetPin Rwd value) st)))"

subsection \<open>PWM mapping and spool weight\<close>

text \<open>
  A negative base under \<^verbatim>\<open>** 0.5\<close> yields a complex number in Python; it is the
  value \<open>None\<close> here, and \<^verbatim>\<open>calculate_rpm\<close> then raises \<^verbatim>\<open>TypeError\<close> where
  \<^verbatim>\<open>min\<close> compares it with a float.
\<close>

definition calculate_effective_diameter :: "lane_config \<Rightarrow> real \<Rightarrow> py_error + real option" where
  "calculate_effective_diameter cfg weight_g =
     (let density_g_mm3 = filament_density cfg / 1000 in
      case py_div weight_g density_g_mm3 of
        Inl e \<Rightarrow> Inl e
      | Inr filament_volume_mm3 \<Rightarrow>
          (let package_corrected_volume_mm3 = filament_volume_mm3 / (785 / 1000);
               filament_area_mm2 = package_corrected_volume_mm3 / 60;
               spool_outer_diameter_mm2 =
                 (4 * filament_area_mm2 / (314159 / 100000)) + (inner_diameter cfg)\<^sup>2
           in Inr (if spool_outer_diameter_mm2 < 0 then None
                   else Some (sqrt spool_outer_diameter_mm2))))"

definition calculate_rpm :: "lane_config \<Rightarrow> real \<Rightarrow> lane \<Rightarrow> py_error + real" where
  "calculate_rpm cfg feed_rate st =
     (if remaining_weight st \<le> empty_spool_weight cfg then Inr 0
      else
        case calculate_effective_diameter cfg (remaining_weight st) of
          Inl e \<Rightarrow> Inl e
        | Inr None \<Rightarrow> Inl TypeError
        | Inr (Some effective_diameter) \<Rightarrow>
            (case py_div (feed_rate * 60) (pi * effective_diameter) of
               Inl e \<Rightarrow> Inl e
             | Inr rpm \<Rightarrow> Inr (min rpm (max_motor_rpm cfg))))"

definition calculate_pwm_value :: "lane_config \<Rightarrow> real \<Rightarrow> bool \<Rightarrow> lane \<Rightarrow> py_error + real" where
  "calculate_pwm_value cfg feed_rate rewind st =
     (case calculate_rpm cfg feed_rate st of
        Inl e \<Rightarrow> Inl e
      | Inr rpm \<Rightarrow>
          (case py_div (max_motor_rpm cfg)
                  (if \<not> rewind then 1 + 9 * fwd_speed_multi cfg
                   else 15 + 15 * rwd_speed_multi cfg) of
             Inl e \<Rightarrow> Inl e
           | Inr full_rpm \<Rightarrow>
               (case py_div rpm full_rpm of
                  Inl e \<Rightarrow> Inl e
                | Inr pwm_value \<Rightarrow> Inr (max 0 (min pwm_value 1)))))"

definition update_remaining_weight :: "lane_config \<Rightarrow> real \<Rightarrow> lane \<Rightarrow> lane" where
  "update_remaining_weight cfg distance_moved st =
     (let filament_volume_mm3 = pi * (filament_diameter cfg / 2)\<^sup>2 * distance_moved;
          filament_weight_change = filament_volume_mm3 * filament_density cfg / 1000;
          w = remaining_weight st - filament_weight_change
      in st\<lparr>remaining_weight := (if w < empty_spool_weight cfg then empty_spool_weight cfg else w)\<rparr>)"

subsection \<open>Tension-based rewind\<close>

text \<open>
  The two polling loops of \<^verbatim>\<open>rewind_until_tension\<close>. Each carries the last sample read
  (the variables \<^verbatim>\<open>wheel_rpm\<close> and \<^verbatim>\<open>motor_rpm\<close>), since the report after the loops
  formats them. \<open>baseline_loop\<close> returns the baseline found, if any.
\<close>

function baseline_loop ::
  "lane_config \<Rightarrow> real \<Rightarrow> rpm_sample \<Rightarrow> lane \<Rightarrow> real option \<times> rpm_sample \<times> lane" where
  "baseline_loop cfg start_time prev st =
     (if now st - start_time < 2 then
        (let (smp, st1) = sensor_get_rpm cfg st in
         case fst smp of
           None \<Rightarrow> baseline_loop cfg start_time smp (reactor_pause (now st1 + 1 / 10) st1)
         | Some wheel_rpm \<Rightarrow>
             if wheel_rpm > tension_baseline_min_rpm cfg then (Some wheel_rpm, smp, st1)
             else baseline_loop cfg start_time smp (reactor_pause (now st1 + 1 / 10) st1))
      else (None, prev, st))"
  by pat_completeness auto
termination
  apply (relation "measure (\<lambda>(cfg, start_time, prev, st). nat \<lceil>(start_time + 2 - now st) * 10\<rceil>)")
    apply simp
  subgoal premises p for cfg start_time prev st x xa y
  proof -
    from p have n: "now y = now st"
      by (auto simp add: sensor_get_rpm_def split: option.splits)
    then have m: "now (reactor_pause (now y + 1 / 10) y) = now st + 1 / 10"
      by (simp add: reactor_pause_def)
    have "(start_time + 2 - (now st + 1 / 10)) * 10 = (start_time + 2 - now st) * 10 - 1"
      by (simp add: algebra_simps)
    then have c: "\<lceil>(start_time + 2 - (now st + 1 / 10)) * 10\<rceil>
        = \<lceil>(start_time + 2 - now st) * 10\<rceil> - 1"
      by (simp only: ceiling_diff_one)
    have "0 < (start_time + 2 - now st) * 10" using p(1) by simp
    then have "0 < \<lceil>(start_time + 2 - now st) * 10\<rceil>" by simp
    with c have "nat \<lceil>(start_time + 2 - (now st + 1 / 10)) * 10\<rceil>
        < nat \<lceil>(start_time + 2 - now st) * 10\<rceil>" by linarith
    then show ?thesis by (simp only: in_measure split_conv m)
  qed
  subgoal premises p for cfg start_time prev st x xa y x2
  proof -
    from p have n: "now y = now st"
      by (auto simp add: sensor_get_rpm_def split: option.splits)
    then have m: "now (reactor_pause (now y + 1 / 10) y) = now st + 1 / 10"
      by (simp add: reactor_pause_def)
    have "(start_time + 2 - (now st + 1 / 10)) * 10 = (start_time + 2 - now st) * 10 - 1"
      by (simp add: algebra_simps)
    then have c: "\<lceil>(start_time + 2 - (now st + 1 / 10)) * 10\<rceil>
        = \<lceil>(start_time + 2 - now st) * 10\<rceil> - 1"
      by (simp only: ceiling_diff_one)
    have "0 < (start_time + 2 - now st) * 10" using p(1) by simp
    then have "0 < \<lceil>(start_time + 2 - now st) * 10\<rceil>" by simp
    with c have "nat \<lceil>(start_time + 2 - (now st + 1 / 10)) * 10\<rceil>
        < nat \<lceil>(start_time + 2 - now st) * 10\<rceil>" by linarith
    then show ?thesis by (simp only: in_measure split_conv m)
  qed
  done

declare baseline_loop.simps [simp del]

text \<open>Sequencing of two steps, the second skipped when the first raised.\<close>

definition bind_out :: "outcome \<Rightarrow> (lane \<Rightarrow> outcome) \<Rightarrow> outcome" where
  "bind_out r f = (case r of (Some e, st) \<Rightarrow> (Some e, st) | (None, st) \<Rightarrow> f st)"

text \<open>
  \<open>regulate\<close> is the duty adjustment inside the second loop; it returns the new
  \<^verbatim>\<open>pwm_val\<close> and the outcome of the \<^verbatim>\<open>assist\<close> call it made, if it made one.
\<close>

definition regulate :: "lane_config \<Rightarrow> real \<Rightarrow> real \<Rightarrow> real \<Rightarrow> lane \<Rightarrow> real \<times> outcome" where
  "regulate cfg target_rpm pwm_val wheel_rpm st =
     (if wheel_rpm < target_rpm * (9 / 10) then
        (let p = max (pwm_val - 5 / 100) (- 1) in (p, assist cfg p st))
      else if wheel_rpm > target_rpm * (11 / 10) then
        (let p = min (pwm_val + 5 / 100) 0 in (p, assist cfg p st))
      else (pwm_val, (None, st)))"

function regulation_loop ::
  "lane_config \<Rightarrow> real \<Rightarrow> real \<Rightarrow> real \<Rightarrow> real \<Rightarrow> rpm_sample \<Rightarrow> lane
     \<Rightarrow> py_error option \<times> rpm_sample \<times> lane" where
  "regulation_loop cfg start_time cutoff target_rpm pwm_val prev st =
     (if now st - start_time < tension_max_time cfg then
        (let (smp, st1) = sensor_get_rpm cfg st in
         case fst smp of
           None \<Rightarrow>
             regulation_loop cfg start_time cutoff target_rpm pwm_val smp
               (reactor_pause (now st1 + 1 / 10) st1)
         | Some wheel_rpm \<Rightarrow>
             (let (pwm_val1, r) = regulate cfg target_rpm pwm_val wheel_rpm st1 in
              case r of
                (Some e, st2) \<Rightarrow> (Some e, smp, st2)
              | (None, st2) \<Rightarrow>
                  if wheel_rpm < cutoff then (None, smp, st2)
                  else regulation_loop cfg start_time cutoff target_rpm pwm_val1 smp
                         (reactor_pause (now st2 + 1 / 10) st2)))
      else (None, prev, st))"
  by pat_completeness auto
termination
  apply (relation "measure (\<lambda>(cfg, start_time, cutoff, target_rpm, pwm_val, prev, st).
            nat \<lceil>(start_time + tension_max_time cfg - now st) * 10\<rceil>)")
    apply simp
  subgoal premises p for cfg start_time cutoff target_rpm pwm_val prev st x xa y
  proof -
    from p have n: "now y = now st"
      by (auto simp add: sensor_get_rpm_def split: option.splits)
    then have m: "now (reactor_pause (now y + 1 / 10) y) = now st + 1 / 10"
      by (simp add: reactor_pause_def)
    have "(start_time + tension_max_time cfg - (now st + 1 / 10)) * 10
        = (start_time + tension_max_time cfg - now st) * 10 - 1"
      by (simp add: algebra_simps)
    then have c: "\<lceil>(start_time + tension_max_time cfg - (now st + 1 / 10)) * 10\<rceil>
        = \<lceil>(start_time + tension_max_time cfg - now st) * 10\<rceil> - 1"
      by (simp only: ceiling_diff_one)
    have "0 < (start_time + tension_max_time cfg - now st) * 10" using p(1) by simp
    then have "0 < \<lceil>(start_time + tension_max_time cfg - now st) * 10\<rceil>" by simp
    with c have "nat \<lceil>(start_time + tension_max_time cfg - (now st + 1 / 10)) * 10\<rceil>
        < nat \<lceil>(start_time + tension_max_time cfg - now st) * 10\<rceil>" by linarith
    then show ?thesis by (simp only: in_measure split_conv m)
  qed
  subgoal premises p for cfg start_time cutoff target_rpm pwm_val prev st x xa y x2 xb xc ya xd yb
  proof -
    from p have n: "now y = now st"
      by (auto simp add: sensor_get_rpm_def split: option.splits)
    have a: "now s \<le> now (snd (assist cfg v s))" for v s
      by (auto simp add: assist_def drive_def brake_n20_def emit_def reactor_pause_def
            py_div_def Let_def split: option.splits)
    from p have "yb = snd (snd (regulate cfg target_rpm pwm_val x2 y))"
      by (metis snd_conv)
    then have "now y \<le> now yb" using a [of y]
      by (auto simp add: regulate_def Let_def split: if_splits)
    with n have le: "now st + 1 / 10 \<le> now yb + 1 / 10" by simp
    have m: "now (reactor_pause (now yb + 1 / 10) yb) = now yb + 1 / 10"
      by (simp add: reactor_pause_def)
    have "(start_time + tension_max_time cfg - (now yb + 1 / 10)) * 10
        \<le> (start_time + tension_max_time cfg - now st) * 10 - 1"
      using le by (simp add: algebra_simps)
    then have "\<lceil>(start_time + tension_max_time cfg - (now yb + 1 / 10)) * 10\<rceil>
        \<le> \<lceil>(start_time + tension_max_time cfg - now st) * 10 - 1\<rceil>"
      by (rule ceiling_mono)
    then have c: "\<lceil>(start_time + tension_max_time cfg - (now yb + 1 / 10)) * 10\<rceil>
        \<le> \<lceil>(start_time + tension_max_time cfg - now st) * 10\<rceil> - 1"
      by (simp only: ceiling_diff_one)
    have "0 < (start_time + tension_max_time cfg - now st) * 10" using p(1) by simp
    then have "0 < \<lceil>(start_time + tension_max_time cfg - now st) * 10\<rceil>" by simp
    with c have "nat \<lceil>(start_time + tension_max_time cfg - (now yb + 1 / 10)) * 10\<rceil>
        < nat \<lceil>(start_time + tension_max_time cfg - now st) * 10\<rceil>" by linarith
    then show ?thesis by (simp only: in_measure split_conv m)
  qed
  done

declare regulation_loop.simps [simp del]

text \<open>
  \<open>rewind_phases\<close> is \<^verbatim>\<open>rewind_until_tension\<close> from the capture of the baseline on
  (steps 3 to 5), given the duty that the motor is running at. Formatting \<^verbatim>\<open>None\<close> with
  \<^verbatim>\<open>:.1f\<close> raises \<^verbatim>\<open>TypeError\<close>; the report of the last sample comes before the final
  \<^verbatim>\<open>assist(0)\<close>.
\<close>

definition rewind_phases :: "lane_config \<Rightarrow> real \<Rightarrow> lane \<Rightarrow> outcome" where
  "rewind_phases cfg pwm_val st1 =
     (let start_time = now st1 in
      case baseline_loop cfg start_time (Some 0, Some 0) st1 of
        (None, smp, st2) \<Rightarrow>
          bind_out (assist cfg 0 st2) (\<lambda>st3. (None, emit (Info BaselineNotFound) st3))
      | (Some baseline_rpm, smp, st2) \<Rightarrow>
          (let cutoff = baseline_rpm * tension_drop_fraction cfg;
               target_rpm = baseline_rpm
           in case regulation_loop cfg start_time cutoff target_rpm pwm_val smp st2 of
                (Some e, smp1, st3) \<Rightarrow> (Some e, st3)
              | (None, (Some wheel_rpm, Some motor_rpm), st3) \<Rightarrow>
                  bind_out (assist cfg 0 (emit (Info (RpmReport wheel_rpm motor_rpm)) st3))
                    (\<lambda>st4. (None, emit (Info (TensionDetected cutoff)) st4))
              | (None, smp1, st3) \<Rightarrow> (Some TypeError, st3)))"

definition rewind_until_tension :: "lane_config \<Rightarrow> real \<Rightarrow> lane \<Rightarrow> outcome" where
  "rewind_until_tension cfg speed st =
     (if wheel_sensor cfg = None \<or> afc_motor_rwd cfg = None then
        (None, emit (Info CannotRewind) st)
      else
        case calculate_pwm_value cfg speed True st of
          Inl e \<Rightarrow> (Some e, st)
        | Inr p \<Rightarrow>
            (let pwm_val = - (if p > 1 then 1 else p)
             in bind_out (assist cfg pwm_val st) (rewind_phases cfg pwm_val)))"

subsection \<open>The assist-move guard\<close>

text \<open>
  \<^verbatim>\<open>assist_move\<close> is a generator under \<^verbatim>\<open>@contextmanager\<close>. \<open>assist_move_enter\<close> is
  the code run up to the \<^verbatim>\<open>yield\<close> reached, \<open>assist_move_exit\<close> the code run when the
  guarded block is left, given what the block raised. In the branch taken for a rewind
  with a sensor the \<^verbatim>\<open>yield\<close> stands outside any \<^verbatim>\<open>try\<close>: an exception thrown into
  the generator there leaves it at once. The other \<^verbatim>\<open>yield\<close> is inside
  \<^verbatim>\<open>try ... finally\<close>. \<open>with_assist_move\<close> is the \<^verbatim>\<open>with\<close> statement around a block.
\<close>

definition set_paused :: "bool \<Rightarrow> lane \<Rightarrow> lane" where
  "set_paused b st = emit (if b then FlagSet else FlagCleared) (st\<lparr>wheel_follow_paused := b\<rparr>)"

definition assist_move_enter :: "lane_config \<Rightarrow> real \<Rightarrow> bool \<Rightarrow> bool \<Rightarrow> lane \<Rightarrow> outcome" where
  "assist_move_enter cfg speed rewind assist_active st0 =
     (if assist_active then
        (let st = set_paused True st0 in
         if rewind \<and> wheel_sensor cfg \<noteq> None then rewind_until_tension cfg speed st
         else
           case (if rewind
                 then (case calculate_pwm_value cfg speed True st of
                         Inl e \<Rightarrow> Inl e | Inr p \<Rightarrow> Inr (p * - 1))
                 else calculate_pwm_value cfg speed False st) of
             Inl e \<Rightarrow> (Some e, st)
           | Inr v \<Rightarrow> assist cfg (if v > 1 then 1 else v) st)
      else (None, st0))"

definition assist_move_exit ::
  "lane_config \<Rightarrow> bool \<Rightarrow> bool \<Rightarrow> py_error option \<Rightarrow> lane \<Rightarrow> outcome" where
  "assist_move_exit cfg rewind assist_active raised st =
     (if assist_active \<and> rewind \<and> wheel_sensor cfg \<noteq> None then
        (case raised of
           Some e \<Rightarrow> (Some e, st)
         | None \<Rightarrow> (None, set_paused False st))
      else
        bind_out
          (if assist_active \<and> \<not> (rewind \<and> wheel_sensor cfg \<noteq> None) then assist cfg 0 st
           else (None, st))
          (\<lambda>st1. (raised, set_paused False st1)))"

definition with_assist_move ::
  "lane_config \<Rightarrow> real \<Rightarrow> bool \<Rightarrow> bool \<Rightarrow> (lane \<Rightarrow> outcome) \<Rightarrow> lane \<Rightarrow> outcome" where
  "with_assist_move cfg speed rewind assist_active block st =
     bind_out (assist_move_enter cfg speed rewind assist_active st) (\<lambda>st1.
       case block st1 of (raised, st2) \<Rightarrow> assist_move_exit cfg rewind assist_active raised st2)"

subsection \<open>The follow controller\<close>

text \<open>
  \<open>follow_ticks\<close> is the reactor calling the timer handler at the given event times,
  one after the other, collecting the wake-up times returned.
\<close>

definition wheel_follow_handler :: "lane_config \<Rightarrow> real \<Rightarrow> lane \<Rightarrow> (py_error + real) \<times> lane" where
  "wheel_follow_handler cfg eventtime st =
     (if wheel_follow_paused st then (Inr (eventtime + 1 / 10), st)
      else
        let (smp, st1) = (if wheel_sensor cfg \<noteq> None then sensor_get_rpm cfg st
                          else ((None, None), st));
            inactive = (\<lambda>s. if assist_activate s
                             then bind_out (assist cfg 0 s) (\<lambda>s1. (None, s1\<lparr>assist_activate := False\<rparr>))
                             else (None, s));
            r = (case fst smp of
                   None \<Rightarrow> inactive st1
                 | Some rpm \<Rightarrow>
                     if rpm \<ge> wheel_follow_min_rpm cfg then
                       (if \<not> assist_activate st1 then
                          (let pwm = max 0 (min (wheel_follow_pwm cfg) 1) in
                           bind_out (assist cfg pwm st1) (\<lambda>s1. (None, s1\<lparr>assist_activate := True\<rparr>)))
                        else (None, st1))
                     else inactive st1)
        in case r of
             (Some e, st2) \<Rightarrow> (Inl e, st2)
           | (None, st2) \<Rightarrow> (Inr (eventtime + 1 / 10), st2))"

fun follow_ticks :: "lane_config \<Rightarrow> real list \<Rightarrow> lane \<Rightarrow> (py_error + real list) \<times> lane" where
  "follow_ticks cfg [] st = (Inr [], st)"
| "follow_ticks cfg (t # ts) st =
     (case wheel_follow_handler cfg t st of
        (Inl e, st1) \<Rightarrow> (Inl e, st1)
      | (Inr w, st1) \<Rightarrow>
          (case follow_ticks cfg ts st1 of
             (Inl e, st2) \<Rightarrow> (Inl e, st2)
           | (Inr ws, st2) \<Rightarrow> (Inr (w # ws), st2)))"

subsection \<open>Moves\<close>

definition calc_move_time :: "real \<Rightarrow> real \<Rightarrow> real \<Rightarrow> py_error + (real \<times> real \<times> real \<times> real)" where
  "calc_move_time dist0 speed0 accel =
     (let axis_r = (if dist0 < 0 then - 1 else 1);
          dist = (if dist0 < 0 then - dist0 else dist0)
      in if accel = 0 \<or> dist = 0 then
           (case py_div dist speed0 of
              Inl e \<Rightarrow> Inl e
            | Inr t \<Rightarrow> Inr (axis_r, 0, t, speed0))
         else
           let max_cruise_v2 = dist * accel in
           case (if max_cruise_v2 < speed0\<^sup>2 then py_sqrt max_cruise_v2 else Inr speed0) of
             Inl e \<Rightarrow> Inl e
           | Inr speed \<Rightarrow>
               (case py_div speed accel of
                  Inl e \<Rightarrow> Inl e
                | Inr accel_t \<Rightarrow>
                    (let accel_decel_d = accel_t * speed in
                     case py_div (dist - accel_decel_d) speed of
                       Inl e \<Rightarrow> Inl e
                     | Inr cruise_t \<Rightarrow> Inr (axis_r, accel_t, cruise_t, speed))))"

text \<open>
  \<open>move_block\<close> is the body of the \<^verbatim>\<open>with\<close> statement of \<^verbatim>\<open>_move\<close>: the timing is
  computed and the segment is queued. The calls into the toolhead and the stepper are
  outside the sources at hand and are taken to return; a guarded block in which one of them
  raises is \<open>failing_block\<close> below. \<open>move_segment\<close> is \<^verbatim>\<open>_move\<close>. The loop of
  \<^verbatim>\<open>move\<close> need not end (take a \<^verbatim>\<open>max_move_dis\<close> that is not positive), so it is a
  partial function: \<open>None\<close> means that the loop runs forever.
\<close>

definition move_block :: "real \<Rightarrow> real \<Rightarrow> real \<Rightarrow> lane \<Rightarrow> outcome" where
  "move_block distance speed accel st =
     (case calc_move_time distance speed accel of
        Inl e \<Rightarrow> (Some e, st)
      | Inr (axis_r, accel_t, cruise_t, cruise_v) \<Rightarrow>
          (None, emit (Segment distance axis_r accel_t cruise_t cruise_v accel) st))"

definition move_segment :: "lane_config \<Rightarrow> real \<Rightarrow> real \<Rightarrow> real \<Rightarrow> bool \<Rightarrow> lane \<Rightarrow> outcome" where
  "move_segment cfg distance speed accel assist_active st =
     (let st1 = (if assist_active then update_remaining_weight cfg distance st else st)
      in with_assist_move cfg speed (distance < 0) assist_active
           (move_block distance speed accel) st1)"



subsection \<open>The load retry loop of \<^verbatim>\<open>prep_callback\<close>\<close>






subsection \<open>Example configuration\<close>

text \<open>
  A lane with the defaults of the constructor, a PWM reverse motor and no forward or
  enable channel; \<open>example_lane\<close> is its state right after start-up.
\<close>

definition example_config :: lane_config where
  "example_config =
     \<lparr>afc_motor_rwd = Some \<lparr>scale = 1, is_pwm = True\<rparr>,
      afc_motor_fwd = None,
      afc_motor_enb = None,
      wheel_sensor = None,
      tension_baseline_min_rpm = 5,
      tension_drop_fraction = 3 / 4,
      tension_max_time = 10,
      wheel_follow_pwm = 3 / 10,
      wheel_follow_min_rpm = 1,
      filament_diameter = 7 / 4,
      filament_density = 31 / 25,
      inner_diameter = 100,
      empty_spool_weight = 190,
      max_motor_rpm = 500,
      rwd_speed_multi = 1 / 2,
      fwd_speed_multi = 1 / 2,
      max_move_dis = 10,
      n20_break_delay_time = 1 / 5,
      load = Some ''load_pin''\<rparr>"

definition example_lane :: lane where
  "example_lane =
     \<lparr>remaining_weight = 1000,
      wheel_follow_paused = False,
      assist_activate = False,
      now = 0,
      sensor_calls = 0,
      load_state = False,
      prep_state = True,
      status = None,
      trace = []\<rparr>"

subsection \<open>Notions used in the statements\<close>

text \<open>
  An event is quiet when it is a call of \<^verbatim>\<open>assist\<close>, a pin write or a message.
  \<open>quiet_step st st1\<close> says that \<open>st1\<close> differs from \<open>st\<close> only by the clock, the count of
  sensor reads and quiet events added to the trace.
\<close>

fun quiet :: "event \<Rightarrow> bool" where
  "quiet (AssistCall v) = True"
| "quiet (SetPin c v) = True"
| "quiet (Info m) = True"
| "quiet e = False"

definition quiet_step :: "lane \<Rightarrow> lane \<Rightarrow> bool" where
  "quiet_step st st1 \<longleftrightarrow>
     remaining_weight st1 = remaining_weight st \<and>
     wheel_follow_paused st1 = wheel_follow_paused st \<and>
     assist_activate st1 = assist_activate st \<and>
     load_state st1 = load_state st \<and>
     prep_state st1 = prep_state st \<and>
     status st1 = status st \<and>
     (\<exists>evs. trace st1 = trace st @ evs \<and> list_all quiet evs)"

text \<open>
  The marks of a trace are its guard events and segments in order: \<open>Begin\<close> where
  \<^verbatim>\<open>_wheel_follow_paused\<close> is set, \<open>End\<close> where it is cleared, \<open>Seg d\<close> for a segment of
  signed distance \<open>d\<close>. \<open>segment_step st st1 evs\<close> says that \<open>st1\<close> is \<open>st\<close> with the events
  \<open>evs\<close> added, none of them from the load retry loop, and the sensor levels, the status and
  \<^verbatim>\<open>assist_activate\<close> unchanged.
\<close>

datatype mark = Begin | Seg real | End

fun mark_of :: "event \<Rightarrow> mark option" where
  "mark_of FlagSet = Some Begin"
| "mark_of FlagCleared = Some End"
| "mark_of (Segment d axis_r accel_t cruise_t cruise_v accel) = Some (Seg d)"
| "mark_of e = None"

fun marks :: "event list \<Rightarrow> mark list" where
  "marks [] = []"
| "marks (e # evs) = (case mark_of e of None \<Rightarrow> marks evs | Some m \<Rightarrow> m # marks evs)"

fun motion :: "event \<Rightarrow> bool" where
  "motion (MotorEnable b) = False"
| "motion (AFCError m) = False"
| "motion LedFault = False"
| "motion e = True"

definition segment_step :: "lane \<Rightarrow> lane \<Rightarrow> event list \<Rightarrow> bool" where
  "segment_step st st1 evs \<longleftrightarrow>
     trace st1 = trace st @ evs \<and> list_all motion evs \<and>
     assist_activate st1 = assist_activate st \<and>
     load_state st1 = load_state st \<and>
     prep_state st1 = prep_state st \<and>
     status st1 = status st"






text \<open>
  \<open>last_assist\<close> is the value of the last call of \<^verbatim>\<open>assist\<close> in a trace. Two sensors
  and a block for concrete runs: \<open>sensor_then_silent\<close> reports 20 RPM once and no data
  afterwards, \<open>slack_sensor\<close> reports 20 RPM once and 4 RPM afterwards, and
  \<open>failing_block\<close> is a guarded block in which the motion backend raises.
\<close>

fun last_assist :: "event list \<Rightarrow> real option" where
  "last_assist [] = None"
| "last_assist (e # evs) =
     (case last_assist evs of
        Some v \<Rightarrow> Some v
      | None \<Rightarrow> (case e of AssistCall v \<Rightarrow> Some v | _ \<Rightarrow> None))"

definition sensor_then_silent :: "nat \<Rightarrow> rpm_sample" where
  "sensor_then_silent k = (if k = 0 then (Some 20, Some 20) else (None, None))"

definition silent_config :: lane_config where
  "silent_config = example_config\<lparr>wheel_sensor := Some sensor_then_silent\<rparr>"

definition slack_sensor :: "nat \<Rightarrow> rpm_sample" where
  "slack_sensor k = (if k = 0 then (Some 20, Some 20) else (Some 4, Some 4))"

definition slack_config :: lane_config where
  "slack_config = example_config\<lparr>wheel_sensor := Some slack_sensor\<rparr>"

definition failing_block :: "lane \<Rightarrow> outcome" where
  "failing_block st = (Some BackendError, st)"

section \<open>Properties\<close>

subsection \<open>What the motor commands leave untouched\<close>

lemma quiet_step_refl: "quiet_step st st"
  by (simp add: quiet_step_def)

lemma quiet_step_trans: "quiet_step a b \<Longrightarrow> quiet_step b c \<Longrightarrow> quiet_step a c"
  by (auto simp add: quiet_step_def)

lemma quiet_step_emit: "quiet e \<Longrightarrow> quiet_step st (emit e st)"
  by (simp add: quiet_step_def emit_def)

lemma quiet_step_pause: "quiet_step st (reactor_pause t st)"
  by (simp add: quiet_step_def reactor_pause_def)

lemma quiet_step_sensor: "quiet_step st (snd (sensor_get_rpm cfg st))"
  by (simp add: quiet_step_def sensor_get_rpm_def split: option.splits)

lemma quiet_step_brake: "quiet_step st (brake_n20 cfg st)"
  by (simp add: quiet_step_def brake_n20_def emit_def reactor_pause_def Let_def)

lemma quiet_step_drive: "quiet_step st (snd (drive cfg m c v st))"
  by (simp add: quiet_step_def drive_def emit_def py_div_def Let_def)

lemma quiet_step_assist: "quiet_step st (snd (assist cfg v st))"
proof -
  have e: "quiet_step st (emit (AssistCall v) st)" by (simp add: quiet_step_emit)
  have "quiet_step (emit (AssistCall v) st) (snd (assist cfg v st))"
    unfolding assist_def Let_def
    by (auto split: option.splits
        intro: quiet_step_refl quiet_step_drive quiet_step_brake quiet_step_emit)
  with e show ?thesis by (rule quiet_step_trans)
qed

lemma quiet_step_regulate: "quiet_step st (snd (snd (regulate cfg tg p w st)))"
  by (simp add: regulate_def Let_def quiet_step_assist quiet_step_refl)

lemma quiet_step_baseline: "quiet_step st (snd (snd (baseline_loop cfg start prev st)))"
proof (induction cfg start prev st rule: baseline_loop.induct)
  case (1 cfg start_time prev st)
  note u = baseline_loop.simps [of cfg start_time prev st]
  show ?case
  proof (cases "now st - start_time < 2")
    case False
    then show ?thesis by (simp add: u quiet_step_refl)
  next
    case True
    obtain smp st1 where s: "sensor_get_rpm cfg st = (smp, st1)" by (cases "sensor_get_rpm cfg st")
    then have q1: "quiet_step st st1" using quiet_step_sensor [of st cfg] by simp
    let ?st2 = "reactor_pause (now st1 + 1 / 10) st1"
    have q2: "quiet_step st ?st2" using q1 quiet_step_pause by (rule quiet_step_trans)
    show ?thesis
    proof (cases "fst smp")
      case None
      with 1(1) [OF True s [symmetric] refl] True s
      have "quiet_step ?st2 (snd (snd (baseline_loop cfg start_time prev st)))" by (simp add: u)
      with q2 show ?thesis by (rule quiet_step_trans)
    next
      case (Some w)
      show ?thesis
      proof (cases "w > tension_baseline_min_rpm cfg")
        case True
        with \<open>now st - start_time < 2\<close> s Some q1 show ?thesis by (simp add: u)
      next
        case False
        with 1(2) [OF True s [symmetric] refl Some] True s Some
        have "quiet_step ?st2 (snd (snd (baseline_loop cfg start_time prev st)))" by (simp add: u)
        with q2 show ?thesis by (rule quiet_step_trans)
      qed
    qed
  qed
qed

lemma quiet_step_regulation:
  "quiet_step st (snd (snd (regulation_loop cfg start cutoff tg p prev st)))"
proof (induction cfg start cutoff tg p prev st rule: regulation_loop.induct)
  case (1 cfg start_time cutoff target_rpm pwm_val prev st)
  note u = regulation_loop.simps [of cfg start_time cutoff target_rpm pwm_val prev st]
  show ?case
  proof (cases "now st - start_time < tension_max_time cfg")
    case False
    then show ?thesis by (simp add: u quiet_step_refl)
  next
    case True
    obtain smp st1 where s: "sensor_get_rpm cfg st = (smp, st1)" by (cases "sensor_get_rpm cfg st")
    then have q1: "quiet_step st st1" using quiet_step_sensor [of st cfg] by simp
    show ?thesis
    proof (cases "fst smp")
      case None
      let ?st2 = "reactor_pause (now st1 + 1 / 10) st1"
      have q2: "quiet_step st ?st2" using q1 quiet_step_pause by (rule quiet_step_trans)
      from 1(1) [OF True s [symmetric] refl None] True s None
      have "quiet_step ?st2 (snd (snd (regulation_loop cfg start_time cutoff target_rpm pwm_val prev st)))"
        by (simp add: u)
      with q2 show ?thesis by (rule quiet_step_trans)
    next
      case (Some w)
      obtain p1 r where g: "regulate cfg target_rpm pwm_val w st1 = (p1, r)"
        by (cases "regulate cfg target_rpm pwm_val w st1")
      obtain x st2 where r: "r = (x, st2)" by (cases r)
      have q2: "quiet_step st st2"
        using q1 quiet_step_regulate [of st1 cfg target_rpm pwm_val w] g r
        by (auto intro: quiet_step_trans)
      show ?thesis
      proof (cases x)
        case (Some e)
        with True s \<open>fst smp = Some w\<close> g r q2 show ?thesis by (simp add: u)
      next
        case None
        show ?thesis
        proof (cases "w < cutoff")
          case True
          with \<open>now st - start_time < tension_max_time cfg\<close> s \<open>fst smp = Some w\<close> g r None q2
          show ?thesis by (simp add: u)
        next
          case False
          let ?st3 = "reactor_pause (now st2 + 1 / 10) st2"
          have q3: "quiet_step st ?st3" using q2 quiet_step_pause by (rule quiet_step_trans)
          from 1(2) [OF True s [symmetric] refl \<open>fst smp = Some w\<close> g [symmetric] refl, of x st2]
            r None False True s \<open>fst smp = Some w\<close> g
          have "quiet_step ?st3
             (snd (snd (regulation_loop cfg start_time cutoff target_rpm pwm_val prev st)))"
            by (simp add: u)
          with q3 show ?thesis by (rule quiet_step_trans)
        qed
      qed
    qed
  qed
qed

lemma quiet_step_bind:
  assumes "quiet_step st (snd r)" and "\<And>s. quiet_step s (snd (f s))"
  shows "quiet_step st (snd (bind_out r f))"
proof (cases r)
  case (Pair x s)
  with assms show ?thesis
    by (cases x) (auto simp add: bind_out_def intro: quiet_step_trans)
qed

lemma quiet_step_phases: "quiet_step st1 (snd (rewind_phases cfg pwm_val st1))"
proof -
  have fin: "quiet_step s (snd (bind_out (assist cfg 0 s) (\<lambda>s3. (None, emit (Info m) s3))))" for s m
    by (rule quiet_step_bind) (auto intro: quiet_step_assist quiet_step_emit)
  have fin2: "quiet_step st1 s \<Longrightarrow>
      quiet_step st1 (snd (bind_out (assist cfg 0 s) (\<lambda>s3. (None, emit (Info m) s3))))" for s m
    using fin [of s m] by (blast intro: quiet_step_trans)
  obtain b smp st2 where bl: "baseline_loop cfg (now st1) (Some 0, Some 0) st1 = (b, smp, st2)"
    by (cases "baseline_loop cfg (now st1) (Some 0, Some 0) st1") auto
  then have q2: "quiet_step st1 st2"
    using quiet_step_baseline [of st1 cfg "now st1" "(Some 0, Some 0)"] by simp
  show ?thesis
  proof (cases b)
    case None
    with bl fin2 [OF q2] show ?thesis by (simp add: rewind_phases_def)
  next
    case (Some baseline_rpm)
    let ?cut = "baseline_rpm * tension_drop_fraction cfg"
    obtain x smp1 st3 where rl:
      "regulation_loop cfg (now st1) ?cut baseline_rpm pwm_val smp st2 = (x, smp1, st3)"
      by (cases "regulation_loop cfg (now st1) ?cut baseline_rpm pwm_val smp st2") auto
    then have q3: "quiet_step st1 st3"
      using q2 quiet_step_regulation [of st2 cfg "now st1" ?cut baseline_rpm pwm_val smp]
      by (auto intro: quiet_step_trans)
    have q4: "quiet_step st1 (emit (Info (RpmReport w m)) st3)" for w m
      using q3 by (rule quiet_step_trans) (simp add: quiet_step_emit)
    show ?thesis using bl Some rl q3 fin2 [OF q4]
      by (simp add: rewind_phases_def Let_def split: option.splits prod.splits)
  qed
qed

lemma quiet_step_rewind: "quiet_step st (snd (rewind_until_tension cfg speed st))"
proof (cases "wheel_sensor cfg = None \<or> afc_motor_rwd cfg = None")
  case True
  then show ?thesis by (simp add: rewind_until_tension_def quiet_step_emit)
next
  case False
  show ?thesis
  proof (cases "calculate_pwm_value cfg speed True st")
    case (Inl e)
    with False show ?thesis by (auto simp add: rewind_until_tension_def quiet_step_refl)
  next
    case (Inr p)
    have "quiet_step st (snd (bind_out (assist cfg v st) (rewind_phases cfg v)))" for v
      by (rule quiet_step_bind) (rule quiet_step_assist, rule quiet_step_phases)
    with False Inr show ?thesis by (auto simp add: rewind_until_tension_def Let_def)
  qed
qed

subsection \<open>Guard events and segments of a move\<close>

lemma marks_append: "marks (xs @ ys) = marks xs @ marks ys"
  by (induction xs) (simp_all split: option.splits)

lemma quiet_marks: "list_all quiet evs \<Longrightarrow> marks evs = [] \<and> list_all motion evs"
proof (induction evs)
  case Nil
  show ?case by simp
next
  case (Cons e evs)
  then show ?case by (cases e) simp_all
qed

lemma segment_step_refl: "segment_step st st []"
  by (simp add: segment_step_def)

lemma segment_step_trans:
  "segment_step a b xs \<Longrightarrow> segment_step b c ys \<Longrightarrow> segment_step a c (xs @ ys)"
  by (simp add: segment_step_def)

lemma quiet_step_segment:
  assumes "quiet_step st st1"
  shows "\<exists>evs. segment_step st st1 evs \<and> marks evs = []
           \<and> remaining_weight st1 = remaining_weight st
           \<and> wheel_follow_paused st1 = wheel_follow_paused st"
proof -
  from assms obtain evs where e: "trace st1 = trace st @ evs" "list_all quiet evs"
    by (auto simp add: quiet_step_def)
  from quiet_marks [OF e(2)] e(1) assms have "segment_step st st1 evs \<and> marks evs = []"
    by (simp add: segment_step_def quiet_step_def)
  with assms show ?thesis by (auto simp add: quiet_step_def)
qed

lemma set_paused_step:
  "segment_step st (set_paused b st) [if b then FlagSet else FlagCleared]
     \<and> remaining_weight (set_paused b st) = remaining_weight st
     \<and> wheel_follow_paused (set_paused b st) = b"
  by (simp add: segment_step_def set_paused_def emit_def)

lemma enter_step:
  assumes "assist_move_enter cfg sp rw act st = (x, st1)"
  shows "\<exists>evs. segment_step st st1 evs \<and> marks evs = (if act then [Begin] else [])
           \<and> remaining_weight st1 = remaining_weight st
           \<and> (act \<longrightarrow> wheel_follow_paused st1)"
proof (cases act)
  case False
  with assms have "st1 = st" by (simp add: assist_move_enter_def)
  with False show ?thesis by (auto intro: segment_step_refl)
next
  case True
  let ?s = "set_paused True st"
  have q: "quiet_step ?s st1"
  proof (cases "rw \<and> wheel_sensor cfg \<noteq> None")
    case True
    with \<open>act\<close> assms have "st1 = snd (rewind_until_tension cfg sp ?s)"
      by (simp add: assist_move_enter_def Let_def)
    then show ?thesis by (simp add: quiet_step_rewind)
  next
    case False
    let ?c = "if rw then (case calculate_pwm_value cfg sp True ?s of
                         Inl e \<Rightarrow> Inl e | Inr p \<Rightarrow> Inr (p * - 1))
                 else calculate_pwm_value cfg sp False ?s"
    show ?thesis
    proof (cases ?c)
      case (Inl e)
      with False \<open>act\<close> assms have "st1 = ?s"
        unfolding assist_move_enter_def Let_def by (simp split: if_splits)
      then show ?thesis by (simp add: quiet_step_refl)
    next
      case (Inr v)
      with False \<open>act\<close> assms have "st1 = snd (assist cfg (if v > 1 then 1 else v) ?s)"
        unfolding assist_move_enter_def Let_def by (simp split: if_splits)
      then show ?thesis by (simp add: quiet_step_assist)
    qed
  qed
  from quiet_step_segment [OF q] obtain evs where
    e: "segment_step ?s st1 evs" "marks evs = []" "remaining_weight st1 = remaining_weight ?s"
       "wheel_follow_paused st1 = wheel_follow_paused ?s"
    by blast
  from set_paused_step [of st True] have a: "segment_step st ?s [FlagSet]" by simp
  have "segment_step st st1 ([FlagSet] @ evs)" using a e(1) by (rule segment_step_trans)
  moreover have "marks ([FlagSet] @ evs) = [Begin]" using e(2) by simp
  ultimately show ?thesis using True e(3,4) set_paused_step [of st True] by auto
qed

lemma block_step:
  assumes "move_block d v a st = (x, st1)"
  shows "\<exists>evs. segment_step st st1 evs \<and> (x = None \<longrightarrow> marks evs = [Seg d])
           \<and> remaining_weight st1 = remaining_weight st
           \<and> wheel_follow_paused st1 = wheel_follow_paused st"
proof (cases "calc_move_time d v a")
  case (Inl e)
  with assms have "st1 = st" "x = Some e" by (simp_all add: move_block_def)
  then show ?thesis by (auto intro: segment_step_refl)
next
  case (Inr r)
  obtain axis_r accel_t cruise_t cruise_v where r: "r = (axis_r, accel_t, cruise_t, cruise_v)"
    by (cases r)
  let ?e = "Segment d axis_r accel_t cruise_t cruise_v a"
  from assms Inr r have s: "st1 = emit ?e st" by (simp add: move_block_def)
  then have "segment_step st st1 [?e]" by (simp add: segment_step_def emit_def)
  moreover have "marks [?e] = [Seg d]" by simp
  ultimately show ?thesis using s by (auto simp add: emit_def)
qed

lemma exit_step:
  assumes "assist_move_exit cfg rw act raised st = (x, st1)"
  shows "\<exists>evs. segment_step st st1 evs
           \<and> remaining_weight st1 = remaining_weight st
           \<and> (x = None \<longrightarrow> raised = None \<and> marks evs = [End] \<and> \<not> wheel_follow_paused st1)"
proof (cases "act \<and> rw \<and> wheel_sensor cfg \<noteq> None")
  case True
  show ?thesis
  proof (cases raised)
    case None
    with True assms have "st1 = set_paused False st" "x = None"
      by (simp_all add: assist_move_exit_def)
    with set_paused_step [of st False] None show ?thesis
      by auto
  next
    case (Some e)
    with True assms have "st1 = st" "x = Some e" by (simp_all add: assist_move_exit_def)
    then show ?thesis by (auto intro: segment_step_refl)
  qed
next
  case False
  let ?r = "if act \<and> \<not> (rw \<and> wheel_sensor cfg \<noteq> None) then assist cfg 0 st else (None, st)"
  obtain y s where r: "?r = (y, s)" by (cases ?r)
  have "quiet_step st (snd ?r)" by (simp add: quiet_step_assist quiet_step_refl)
  with r have "quiet_step st s" by simp
  from quiet_step_segment [OF this] obtain evs where
    e: "segment_step st s evs" "marks evs = []" "remaining_weight s = remaining_weight st"
    by blast
  show ?thesis
  proof (cases y)
    case (Some e')
    with False r assms have "st1 = s" "x = Some e'"
      unfolding assist_move_exit_def bind_out_def by (simp_all split: if_splits)
    with e show ?thesis by auto
  next
    case None
    with False r assms have s1: "st1 = set_paused False s" "x = raised"
      unfolding assist_move_exit_def bind_out_def by (simp_all split: if_splits)
    from set_paused_step [of s False] s1 have a: "segment_step s st1 [FlagCleared]" by simp
    have "segment_step st st1 (evs @ [FlagCleared])" using e(1) a by (rule segment_step_trans)
    moreover have "marks (evs @ [FlagCleared]) = [End]"
      using e(2) by (simp add: marks_append)
    ultimately show ?thesis using s1 e(3) set_paused_step [of s False] by auto
  qed
qed

lemma update_weight_step: "segment_step st (update_remaining_weight cfg d st) []
    \<and> wheel_follow_paused (update_remaining_weight cfg d st) = wheel_follow_paused st"
  by (simp add: segment_step_def update_remaining_weight_def Let_def)

lemma move_segment_step:
  assumes "move_segment cfg d v a act st = (x, st1)"
  shows "\<exists>evs. segment_step st st1 evs
           \<and> remaining_weight st1 =
               (if act then remaining_weight (update_remaining_weight cfg d st)
                else remaining_weight st)
           \<and> (x = None \<longrightarrow> marks evs = (if act then [Begin] else []) @ [Seg d, End]
                \<and> \<not> wheel_follow_paused st1)"
proof -
  let ?s0 = "if act then update_remaining_weight cfg d st else st"
  have s0: "segment_step st ?s0 []"
    using update_weight_step [of st cfg d] by (simp add: segment_step_refl)
  obtain y s1 where en: "assist_move_enter cfg v (d < 0) act ?s0 = (y, s1)"
    by (cases "assist_move_enter cfg v (d < 0) act ?s0")
  from enter_step [OF en] obtain e1 where
    e1: "segment_step ?s0 s1 e1" "marks e1 = (if act then [Begin] else [])"
        "remaining_weight s1 = remaining_weight ?s0"
    by blast
  have a1: "segment_step st s1 e1" using segment_step_trans [OF s0 e1(1)] by simp
  show ?thesis
  proof (cases y)
    case (Some e)
    with en assms have "st1 = s1" "x = Some e"
      by (simp_all add: move_segment_def with_assist_move_def bind_out_def Let_def)
    with a1 e1(3) show ?thesis by auto
  next
    case None
    obtain raised s2 where bl: "move_block d v a s1 = (raised, s2)"
      by (cases "move_block d v a s1")
    from block_step [OF bl] obtain e2 where
      e2: "segment_step s1 s2 e2" "raised = None \<longrightarrow> marks e2 = [Seg d]"
          "remaining_weight s2 = remaining_weight s1"
      by blast
    from None en bl assms have ex: "assist_move_exit cfg (d < 0) act raised s2 = (x, st1)"
      by (simp add: move_segment_def with_assist_move_def bind_out_def Let_def)
    from exit_step [OF ex] obtain e3 where
      e3: "segment_step s2 st1 e3" "remaining_weight st1 = remaining_weight s2"
          "x = None \<longrightarrow> raised = None \<and> marks e3 = [End] \<and> \<not> wheel_follow_paused st1"
      by blast
    have "segment_step st st1 ((e1 @ e2) @ e3)"
      using segment_step_trans [OF segment_step_trans [OF a1 e2(1)] e3(1)] .
    moreover have "x = None \<longrightarrow> marks ((e1 @ e2) @ e3) = (if act then [Begin] else []) @ [Seg d, End]"
      using e1(2) e2(2) e3(3) by (simp add: marks_append)
    ultimately show ?thesis using e1(3) e2(3) e3(2,3) by auto
  qed
qed



subsection \<open>Arithmetic of the timing and of the PWM mapping\<close>

lemma sqrt_less_square: "0 < v \<Longrightarrow> (x < v\<^sup>2) = (sqrt x < v)"
  by (metis abs_of_pos real_sqrt_abs real_sqrt_less_iff)

lemma calc_move_time_eq:
  assumes "0 < v"
  shows "calc_move_time d v a =
     (if a < 0 \<and> d \<noteq> 0 then Inl ValueError
      else if a = 0 \<or> d = 0 then Inr (if d < 0 then - 1 else 1, 0, \<bar>d\<bar> / v, v)
      else let v' = min v (sqrt (\<bar>d\<bar> * a)); t_a = v' / a
           in Inr (if d < 0 then - 1 else 1, t_a, (\<bar>d\<bar> - t_a * v') / v', v'))"
proof -
  have v0: "v \<noteq> 0" using assms by simp
  consider (neg) "a < 0" "d \<noteq> 0" | (flat) "a = 0 \<or> d = 0" | (pos) "0 < a" "d \<noteq> 0"
    by fastforce
  then show ?thesis
  proof cases
    case neg
    then have "\<bar>d\<bar> * a < 0" by (simp add: mult_pos_neg)
    moreover have "0 \<le> v\<^sup>2" by simp
    ultimately have "\<bar>d\<bar> * a < v\<^sup>2" by linarith
    with neg \<open>\<bar>d\<bar> * a < 0\<close> show ?thesis
      by (simp add: calc_move_time_def py_sqrt_def Let_def abs_if)
  next
    case flat
    then show ?thesis using v0
      by (auto simp add: calc_move_time_def py_div_def Let_def abs_if)
  next
    case pos
    then have p: "0 < \<bar>d\<bar> * a" by simp
    then have s: "0 < sqrt (\<bar>d\<bar> * a)" by simp
    have m: "0 < min v (sqrt (\<bar>d\<bar> * a))" using s assms by simp
    have e: "(if \<bar>d\<bar> * a < v\<^sup>2 then py_sqrt (\<bar>d\<bar> * a) else Inr v) = Inr (min v (sqrt (\<bar>d\<bar> * a)))"
      using p sqrt_less_square [OF assms, of "\<bar>d\<bar> * a"] by (simp add: py_sqrt_def min_def)
    have d: "(if d < 0 then - d else d) = \<bar>d\<bar>" by (simp add: abs_if)
    from m have m0: "min v (sqrt (\<bar>d\<bar> * a)) \<noteq> 0" by linarith
    from pos have a0: "a \<noteq> 0" "\<not> a < 0" by simp_all
    show ?thesis using pos a0 m0
      by (simp add: calc_move_time_def py_div_def Let_def d e)
  qed
qed

lemma effective_diameter_pos:
  assumes "0 < filament_density cfg" and "0 < w"
  shows "\<exists>D. calculate_effective_diameter cfg w = Inr (Some D) \<and> 0 < D"
proof -
  let ?d2 = "4 * (w / (filament_density cfg / 1000) / (785 / 1000) / 60) / (314159 / 100000)
               + (inner_diameter cfg)\<^sup>2"
  have "0 < w / (filament_density cfg / 1000)" using assms by simp
  then have "0 < 4 * (w / (filament_density cfg / 1000) / (785 / 1000) / 60) / (314159 / 100000)"
    by simp
  then have p: "0 < ?d2" by (simp add: add_pos_nonneg)
  then have "0 < sqrt ?d2" by simp
  moreover have "calculate_effective_diameter cfg w = Inr (Some (sqrt ?d2))"
    using assms p by (simp add: calculate_effective_diameter_def py_div_def Let_def)
  ultimately show ?thesis by blast
qed

lemma calculate_rpm_linear:
  assumes "0 < filament_density cfg" and "0 \<le> empty_spool_weight cfg"
  shows "\<exists>k. 0 \<le> k \<and> (empty_spool_weight cfg < remaining_weight st \<longrightarrow> 0 < k)
             \<and> (\<forall>f. calculate_rpm cfg f st = Inr (if remaining_weight st \<le> empty_spool_weight cfg
                              then 0 else min (f * k) (max_motor_rpm cfg)))"
proof (cases "remaining_weight st \<le> empty_spool_weight cfg")
  case True
  then have "\<forall>f. calculate_rpm cfg f st = Inr 0" by (simp add: calculate_rpm_def)
  with True show ?thesis by (intro exI [of _ 0]) simp
next
  case False
  with assms(2) have "0 < remaining_weight st" by simp
  from effective_diameter_pos [OF assms(1) this]
  obtain D where D: "calculate_effective_diameter cfg (remaining_weight st) = Inr (Some D)" "0 < D"
    by blast
  have pd: "0 < pi * D" using D(2) by simp
  have "calculate_rpm cfg f st = Inr (min (f * (60 / (pi * D))) (max_motor_rpm cfg))" for f
    using False D pd by (simp add: calculate_rpm_def py_div_def)
  moreover have "0 < 60 / (pi * D)" using pd by simp
  ultimately show ?thesis using False by (intro exI [of _ "60 / (pi * D)"]) simp
qed

lemma calculate_pwm_value_shape:
  assumes "0 < filament_density cfg" and "0 \<le> empty_spool_weight cfg"
    and "0 < max_motor_rpm cfg" and "0 \<le> fwd_speed_multi cfg" and "0 \<le> rwd_speed_multi cfg"
  shows "\<exists>k c. 0 \<le> k \<and> 0 < c \<and> (empty_spool_weight cfg < remaining_weight st \<longrightarrow> 0 < k)
           \<and> (\<forall>f. calculate_pwm_value cfg f rw st =
                  Inr (if remaining_weight st \<le> empty_spool_weight cfg then 0
                       else max 0 (min (min (f * k) (max_motor_rpm cfg) * c) 1)))"
proof -
  from calculate_rpm_linear [OF assms(1,2), of st]
  obtain k where k: "0 \<le> k" "empty_spool_weight cfg < remaining_weight st \<longrightarrow> 0 < k"
    "\<And>f. calculate_rpm cfg f st = Inr (if remaining_weight st \<le> empty_spool_weight cfg
                              then 0 else min (f * k) (max_motor_rpm cfg))"
    by blast
  let ?m = "if \<not> rw then 1 + 9 * fwd_speed_multi cfg else 15 + 15 * rwd_speed_multi cfg"
  have m: "0 < ?m" using assms(4,5) by (simp add: add_pos_nonneg)
  then have m0: "?m \<noteq> 0" by linarith
  have full: "0 < max_motor_rpm cfg / ?m" using assms(3) m by simp
  then have f0: "max_motor_rpm cfg / ?m \<noteq> 0" by linarith
  have c: "0 < ?m / max_motor_rpm cfg" using assms(3) m by simp
  have "calculate_pwm_value cfg f rw st =
          Inr (if remaining_weight st \<le> empty_spool_weight cfg then 0
               else max 0 (min (min (f * k) (max_motor_rpm cfg) * (?m / max_motor_rpm cfg)) 1))" for f
    unfolding calculate_pwm_value_def k py_div_def using m0 f0
    by (simp del: One_nat_def)
  with k(1,2) c show ?thesis by blast
qed

lemma rewind_weight_grows:
  assumes "d < 0" and "0 < filament_density cfg" and "filament_diameter cfg \<noteq> 0"
    and "empty_spool_weight cfg \<le> remaining_weight st"
  shows "remaining_weight st < remaining_weight (update_remaining_weight cfg d st)"
proof -
  have "0 < pi * (filament_diameter cfg / 2)\<^sup>2" using assms(3) by simp
  then have "pi * (filament_diameter cfg / 2)\<^sup>2 * d < 0" using assms(1) by (rule mult_pos_neg)
  then have "pi * (filament_diameter cfg / 2)\<^sup>2 * d * filament_density cfg < 0"
    using assms(2) by (rule mult_neg_pos)
  then have c: "pi * (filament_diameter cfg / 2)\<^sup>2 * d * filament_density cfg / 1000 < 0"
    by simp
  let ?w = "remaining_weight st
     - pi * (filament_diameter cfg / 2)\<^sup>2 * d * filament_density cfg / 1000"
  from c have g: "remaining_weight st < ?w" by linarith
  with assms(4) have "\<not> ?w < empty_spool_weight cfg" by linarith
  then have "remaining_weight (update_remaining_weight cfg d st) = ?w"
    by (simp add: update_remaining_weight_def Let_def)
  with g show ?thesis by (simp only:)
qed

subsection \<open>Whole moves\<close>







lemma assist_ok:
  assumes "\<forall>m. afc_motor_rwd cfg = Some m \<longrightarrow> scale m \<noteq> 0"
    and "\<forall>m. afc_motor_fwd cfg = Some m \<longrightarrow> scale m \<noteq> 0"
  shows "fst (assist cfg w st) = None"
  using assms
  by (auto simp add: assist_def drive_def py_div_def Let_def split: option.splits)



subsection \<open>Counting the retries\<close>






subsection \<open>Runs of the tension rewind and of the guard\<close>

lemma silent_regulation:
  assumes "wheel_sensor cfg = Some f" and "\<forall>j \<ge> sensor_calls st. fst (f j) = None"
  shows "\<exists>smp st1. regulation_loop cfg start cutoff tg p prev st = (None, smp, st1)
           \<and> trace st1 = trace st
           \<and> (fst prev = None \<or> now st - start < tension_max_time cfg \<longrightarrow> fst smp = None)"
  using assms
proof (induction cfg start cutoff tg p prev st rule: regulation_loop.induct)
  case (1 cfg start_time cutoff target_rpm pwm_val prev st)
  note u = regulation_loop.simps [of cfg start_time cutoff target_rpm pwm_val prev st]
  show ?case
  proof (cases "now st - start_time < tension_max_time cfg")
    case False
    then show ?thesis by (simp add: u)
  next
    case True
    let ?smp = "f (sensor_calls st)"
    let ?st1 = "st\<lparr>sensor_calls := Suc (sensor_calls st)\<rparr>"
    let ?st2 = "reactor_pause (now ?st1 + 1 / 10) ?st1"
    have s: "sensor_get_rpm cfg st = (?smp, ?st1)"
      using "1.prems"(1) by (simp add: sensor_get_rpm_def)
    have n: "fst ?smp = None" using "1.prems"(2) by simp
    have nx: "\<forall>j \<ge> sensor_calls ?st2. fst (f j) = None"
      using "1.prems"(2) by (simp add: reactor_pause_def)
    from "1.IH"(1) [OF True s [symmetric] refl n "1.prems"(1) nx]
    obtain smp st1 where
      r: "regulation_loop cfg start_time cutoff target_rpm pwm_val ?smp ?st2 = (None, smp, st1)"
         "trace st1 = trace ?st2"
         "fst ?smp = None \<or> now ?st2 - start_time < tension_max_time cfg \<longrightarrow> fst smp = None"
      by blast
    have "regulation_loop cfg start_time cutoff target_rpm pwm_val prev st = (None, smp, st1)"
      using True s n r(1) by (simp add: u)
    moreover have "trace st1 = trace st" using r(2) by (simp add: reactor_pause_def)
    moreover have "fst smp = None" using r(3) n by blast
    ultimately show ?thesis by blast
  qed
qed

lemma rewind_duty_positive:
  assumes "0 < filament_density cfg" and "0 \<le> empty_spool_weight cfg"
    and "0 < max_motor_rpm cfg" and "0 \<le> fwd_speed_multi cfg" and "0 \<le> rwd_speed_multi cfg"
    and "empty_spool_weight cfg < remaining_weight st" and "0 < f"
  shows "\<exists>p. calculate_pwm_value cfg f rw st = Inr p \<and> 0 < p \<and> p \<le> 1"
proof -
  from calculate_pwm_value_shape [OF assms(1-5), of st rw] assms(6)
  obtain k c where k: "0 < k" "0 < c"
    and e: "calculate_pwm_value cfg f rw st =
                  Inr (max 0 (min (min (f * k) (max_motor_rpm cfg) * c) 1))"
    by (auto simp add: not_le [symmetric])
  have "0 < f * k" using assms(7) k(1) by simp
  then have "0 < min (f * k) (max_motor_rpm cfg)" using assms(3) by simp
  then have "0 < min (f * k) (max_motor_rpm cfg) * c" using k(2) by simp
  then have "0 < max 0 (min (min (f * k) (max_motor_rpm cfg) * c) 1)" by simp
  moreover have "max 0 (min (min (f * k) (max_motor_rpm cfg) * c) 1) \<le> 1" by simp
  ultimately show ?thesis using e by blast
qed

lemma last_assist_append:
  "last_assist (xs @ ys) = (case last_assist ys of Some v \<Rightarrow> Some v | None \<Rightarrow> last_assist xs)"
  by (induction xs) (simp_all split: option.splits)

lemma assist_last: "last_assist (trace (snd (assist cfg v st))) = Some v"
  by (simp add: assist_def drive_def brake_n20_def emit_def reactor_pause_def py_div_def
      Let_def last_assist_append split: option.splits)

lemma silent_baseline:
  assumes "wheel_sensor cfg = Some f" and "\<forall>j \<ge> sensor_calls st. fst (f j) = None"
  shows "\<exists>smp st1. baseline_loop cfg start prev st = (None, smp, st1) \<and> trace st1 = trace st"
  using assms
proof (induction cfg start prev st rule: baseline_loop.induct)
  case (1 cfg start_time prev st)
  note u = baseline_loop.simps [of cfg start_time prev st]
  show ?case
  proof (cases "now st - start_time < 2")
    case False
    then show ?thesis by (simp add: u)
  next
    case True
    let ?smp = "f (sensor_calls st)"
    let ?st1 = "st\<lparr>sensor_calls := Suc (sensor_calls st)\<rparr>"
    let ?st2 = "reactor_pause (now ?st1 + 1 / 10) ?st1"
    have s: "sensor_get_rpm cfg st = (?smp, ?st1)"
      using "1.prems"(1) by (simp add: sensor_get_rpm_def)
    have n: "fst ?smp = None" using "1.prems"(2) by simp
    have nx: "\<forall>j \<ge> sensor_calls ?st2. fst (f j) = None"
      using "1.prems"(2) by (simp add: reactor_pause_def)
    from "1.IH"(1) [OF True s [symmetric] refl n "1.prems"(1) nx]
    obtain smp st1 where
      r: "baseline_loop cfg start_time ?smp ?st2 = (None, smp, st1)" "trace st1 = trace ?st2"
      by blast
    have "baseline_loop cfg start_time prev st = (None, smp, st1)"
      using True s n r(1) by (simp add: u)
    moreover have "trace st1 = trace st" using r(2) by (simp add: reactor_pause_def)
    ultimately show ?thesis by blast
  qed
qed

lemma pwm_range: "calculate_pwm_value cfg f rw st = Inr p \<Longrightarrow> 0 \<le> p \<and> p \<le> 1"
  by (auto simp add: calculate_pwm_value_def split: sum.splits)

lemma rewind_without_samples:
  assumes "wheel_sensor cfg = Some f" and "\<forall>j. fst (f j) = None"
    and "afc_motor_rwd cfg = Some m" and "scale m \<noteq> 0"
    and "calculate_pwm_value cfg speed True st = Inr p"
  shows "fst (rewind_until_tension cfg speed st) = None
       \<and> last_assist (trace (snd (rewind_until_tension cfg speed st))) = Some 0
       \<and> last (trace (snd (rewind_until_tension cfg speed st))) = Info BaselineNotFound"
proof -
  let ?v = "- (if p > 1 then 1 else p)"
  obtain y st1 where a: "assist cfg ?v st = (y, st1)" by (cases "assist cfg ?v st")
  from pwm_range [OF assms(5)] have "?v \<le> 0" by simp
  then have y: "y = None"
    using a assms(3,4)
    by (auto simp add: assist_def drive_def py_div_def Let_def split: option.splits if_splits)
  from silent_baseline [OF assms(1), of st1 "now st1" "(Some 0, Some 0)"] assms(2)
  obtain smp st2 where b: "baseline_loop cfg (now st1) (Some 0, Some 0) st1 = (None, smp, st2)"
    by auto
  obtain z st3 where c: "assist cfg 0 st2 = (z, st3)" by (cases "assist cfg 0 st2")
  have z: "z = None" using c
    by (auto simp add: assist_def Let_def split: option.splits if_splits)
  have la: "last_assist (trace st3) = Some 0" using assist_last [of cfg 0 st2] c by simp
  have "rewind_until_tension cfg speed st = (None, emit (Info BaselineNotFound) st3)"
    using assms(1,3,5) a y b c z
    by (simp add: rewind_until_tension_def rewind_phases_def bind_out_def Let_def)
  with la show ?thesis by (simp add: emit_def last_assist_append)
qed

lemma guard_release_open_loop:
  assumes "\<not> (rw \<and> wheel_sensor cfg \<noteq> None)"
    and "fst (assist_move_enter cfg sp rw act st) = None"
  shows "\<not> wheel_follow_paused (snd (with_assist_move cfg sp rw act block st))
       \<and> fst (with_assist_move cfg sp rw act block st)
           = fst (block (snd (assist_move_enter cfg sp rw act st)))"
proof -
  obtain s1 where en: "assist_move_enter cfg sp rw act st = (None, s1)"
    using assms(2) by (cases "assist_move_enter cfg sp rw act st") auto
  obtain raised s2 where bl: "block s1 = (raised, s2)" by (cases "block s1")
  obtain y s3 where a: "assist cfg 0 s2 = (y, s3)" by (cases "assist cfg 0 s2")
  have "y = None" using a
    by (auto simp add: assist_def Let_def split: option.splits if_splits)
  with a assms(1) have "assist_move_exit cfg rw act raised s2
      = (raised, set_paused False (if act then s3 else s2))"
    by (auto simp add: assist_move_exit_def bind_out_def)
  with en bl show ?thesis
    by (simp add: with_assist_move_def bind_out_def set_paused_def emit_def)
qed

lemma guard_release_rewind:
  assumes "wheel_sensor cfg \<noteq> None"
    and "assist_move_enter cfg sp True True st = (None, s1)"
    and "block s1 = (raised, s2)"
  shows "with_assist_move cfg sp True True block st =
           (case raised of None \<Rightarrow> (None, set_paused False s2) | Some e \<Rightarrow> (Some e, s2))"
  using assms
  by (simp add: with_assist_move_def bind_out_def assist_move_exit_def split: option.splits)

lemma slack_rewind_completes:
  "fst (rewind_until_tension slack_config 50 (set_paused True example_lane)) = None"
proof -
  let ?s = "set_paused True example_lane"
  have "\<exists>p. calculate_pwm_value slack_config 50 True ?s = Inr p \<and> 0 < p \<and> p \<le> 1"
    by (rule rewind_duty_positive)
       (simp_all add: slack_config_def example_config_def example_lane_def set_paused_def emit_def)
  then obtain p where p: "calculate_pwm_value slack_config 50 True ?s = Inr p"
    "0 < p" "p \<le> 1" by blast
  have ok: "fst (assist slack_config w s) = None" for w s
    by (rule assist_ok) (simp_all add: slack_config_def example_config_def)
  have f: "wheel_sensor slack_config = Some slack_sensor" "tension_max_time slack_config = 10"
    "tension_drop_fraction slack_config = 3 / 4" "tension_baseline_min_rpm slack_config = 5"
    "afc_motor_rwd slack_config \<noteq> None"
    by (simp_all add: slack_config_def example_config_def)
  define st1 where "st1 = emit (SetPin Rwd p) (emit (AssistCall (- p)) ?s)"
  have a1: "assist slack_config (- p) ?s = (None, st1)"
    using p(2) unfolding st1_def
    by (simp add: assist_def drive_def py_div_def slack_config_def example_config_def Let_def)
  have n1: "now st1 = 0" "sensor_calls st1 = 0"
    by (simp_all add: st1_def emit_def set_paused_def example_lane_def)
  define st2 where "st2 = st1\<lparr>sensor_calls := Suc (sensor_calls st1)\<rparr>"
  have sg1: "sensor_get_rpm slack_config st1 = ((Some 20, Some 20), st2)"
    unfolding sensor_get_rpm_def f n1 st2_def by (simp add: slack_sensor_def)
  have b: "baseline_loop slack_config (now st1) (Some 0, Some 0) st1
      = (Some 20, (Some 20, Some 20), st2)"
    by (subst baseline_loop.simps) (simp add: sg1 f n1)
  have n2: "now st2 = 0" "sensor_calls st2 = 1" by (simp_all add: st2_def n1)
  define st3 where "st3 = st2\<lparr>sensor_calls := Suc (sensor_calls st2)\<rparr>"
  have sg2: "sensor_get_rpm slack_config st2 = ((Some 4, Some 4), st3)"
    unfolding sensor_get_rpm_def f n2 st3_def by (simp add: slack_sensor_def)
  let ?q = "max (- p - 5 / 100) (- 1)"
  obtain y st4 where g: "assist slack_config ?q st3 = (y, st4)"
    by (cases "assist slack_config ?q st3")
  with ok [of ?q st3] have y: "y = None" by simp
  have rg: "regulate slack_config 20 (- p) 4 st3 = (?q, (None, st4))"
    using g y by (simp add: regulate_def Let_def)
  have r: "regulation_loop slack_config (now st1) (20 * tension_drop_fraction slack_config) 20
          (- p) (Some 20, Some 20) st2 = (None, (Some 4, Some 4), st4)"
    by (subst regulation_loop.simps) (simp add: sg2 rg f n1 n2)
  let ?st5 = "emit (Info (RpmReport 4 4)) st4"
  obtain z st6 where h: "assist slack_config 0 ?st5 = (z, st6)"
    by (cases "assist slack_config 0 ?st5")
  with ok [of 0 ?st5] have z: "z = None" by simp
  have ph: "fst (rewind_phases slack_config (- p) st1) = None"
    using b r h z by (simp add: rewind_phases_def bind_out_def Let_def)
  show ?thesis
    using p a1 ph f
    by (simp add: rewind_until_tension_def bind_out_def Let_def)
qed

subsection \<open>The wheel sensor\<close>



subsection \<open>Timing of one segment\<close>

text \<open>
  Claim C6, as the code has it. For every signed distance \<open>d\<close> and speed \<open>v > 0\<close>:
  with a negative acceleration and \<open>d \<noteq> 0\<close> the call raises \<^verbatim>\<open>ValueError\<close> (the square root
  of a negative number); otherwise the direction returned is \<open>-1\<close> for \<open>d < 0\<close> and \<open>1\<close> for
  every other \<open>d\<close>, zero included; with \<open>a = 0\<close> or \<open>d = 0\<close> the acceleration time is \<open>0\<close>, the
  cruise time \<open>|d| / v\<close> and the cruise speed \<open>v\<close>; in the remaining case (\<open>a > 0\<close>,
  \<open>d \<noteq> 0\<close>) the peak velocity is \<open>v' = min v (sqrt (|d| * a))\<close>, the acceleration time
  \<open>t_a = v' / a\<close> and the cruise time \<open>(|d| - t_a * v') / v'\<close>.
\<close>

theorem calc_move_time_profile:
  assumes "0 < v"
  shows "calc_move_time d v a =
     (if a < 0 \<and> d \<noteq> 0 then Inl ValueError
      else if a = 0 \<or> d = 0 then Inr (if d < 0 then - 1 else 1, 0, \<bar>d\<bar> / v, v)
      else let v' = min v (sqrt (\<bar>d\<bar> * a)); t_a = v' / a
           in Inr (if d < 0 then - 1 else 1, t_a, (\<bar>d\<bar> - t_a * v') / v', v'))"
  using assms by (rule calc_move_time_eq)

theorem calc_move_time_profile_witness:
  "calc_move_time (- 8) 4 2 = Inr (- 1, 2, 0, 4) \<and> calc_move_time (- 2) 4 2 = Inr (- 1, 1, 0, 2)
     \<and> calc_move_time 6 3 0 = Inr (1, 0, 2, 3)"
  using calc_move_time_profile [of 4 "- 8" 2] calc_move_time_profile [of 4 "- 2" 2]
    calc_move_time_profile [of 3 6 0]
  by simp

text \<open>
  The claim as the specification states it fails at two points: a negative acceleration
  makes the call raise instead of returning a profile, and the direction returned for a
  zero distance is \<open>1\<close>, which is not the sign of \<open>0\<close>.
\<close>

theorem calc_move_time_counterexample:
  "calc_move_time 1 1 (- 1) = Inl ValueError
     \<and> calc_move_time 0 1 1 = Inr (1, 0, 0, 1) \<and> sgn (0 :: real) \<noteq> 1"
  by (simp add: calc_move_time_def py_sqrt_def py_div_def)

subsection \<open>The PWM mapping\<close>



subsection \<open>Spool weight\<close>

text \<open>
  Claim C8, as the code has it. An assisted segment of signed distance \<open>d\<close> changes the
  remaining weight by \<open>pi * (filament_diameter / 2)\<^sup>2 * d * density / 1000\<close> taken with the
  sign of \<open>d\<close>: a forward segment lowers the weight, a rewind segment (\<open>d < 0\<close>) raises it.
  The result is floored at the empty-spool weight.
\<close>

theorem assisted_segment_weight:
  "remaining_weight (snd (move_segment cfg d v a True st)) =
     max (empty_spool_weight cfg)
       (remaining_weight st - pi * (filament_diameter cfg / 2)\<^sup>2 * d * filament_density cfg / 1000)"
proof -
  obtain x st1 where m: "move_segment cfg d v a True st = (x, st1)"
    by (cases "move_segment cfg d v a True st")
  from move_segment_step [OF m]
  have "remaining_weight st1 = remaining_weight (update_remaining_weight cfg d st)" by auto
  with m show ?thesis by (simp add: update_remaining_weight_def Let_def max_def)
qed

text \<open>
  The claim as stated takes the magnitude of the distance, so that no move could raise
  the weight. A rewind of one metre on the example lane raises it.
\<close>

theorem assisted_segment_weight_counterexample:
  "remaining_weight example_lane
     < remaining_weight (snd (move_segment example_config (- 1000) 50 400 True example_lane))"
proof -
  obtain x st1 where m: "move_segment example_config (- 1000) 50 400 True example_lane = (x, st1)"
    by (cases "move_segment example_config (- 1000) 50 400 True example_lane")
  from move_segment_step [OF m]
  have "remaining_weight st1
      = remaining_weight (update_remaining_weight example_config (- 1000) example_lane)"
    by auto
  moreover have "remaining_weight example_lane
      < remaining_weight (update_remaining_weight example_config (- 1000) example_lane)"
    by (rule rewind_weight_grows) (simp_all add: example_config_def example_lane_def)
  ultimately show ?thesis using m by simp
qed

subsection \<open>The follow controller under the exclusion flag\<close>

text \<open>
  Claim C3. While \<^verbatim>\<open>_wheel_follow_paused\<close> is set, any number of ticks of the follow
  handler, at any event times, leaves the lane as it was: the trace gains no call of
  \<^verbatim>\<open>assist\<close> and no pin write, the sensor is not read, and each tick only returns its
  event time plus 0.1 s as the next wake-up time.
\<close>

theorem follow_paused_idle:
  assumes "wheel_follow_paused st"
  shows "follow_ticks cfg ts st = (Inr (map (\<lambda>t. t + 1 / 10) ts), st)"
proof (induction ts)
  case Nil
  show ?case by simp
next
  case (Cons t ts)
  have "wheel_follow_handler cfg t st = (Inr (t + 1 / 10), st)"
    using assms by (simp add: wheel_follow_handler_def)
  with Cons show ?case by simp
qed

theorem follow_paused_idle_witness:
  "follow_ticks example_config [0, 1 / 10, 1 / 5] (example_lane\<lparr>wheel_follow_paused := True\<rparr>)
     = (Inr [1 / 10, 1 / 5, 3 / 10], example_lane\<lparr>wheel_follow_paused := True\<rparr>)"
proof -
  have h: "wheel_follow_paused (example_lane\<lparr>wheel_follow_paused := True\<rparr>)" by simp
  from follow_paused_idle [OF h, of example_config "[0, 1 / 10, 1 / 5]"] show ?thesis by simp
qed

subsection \<open>Segmentation of a move\<close>



subsection \<open>Assist sessions of a move\<close>




subsection \<open>The load retry loop\<close>




subsection \<open>Exits of the tension rewind\<close>

text \<open>
  Claim C1 asks that every exit of \<^verbatim>\<open>rewind_until_tension\<close> commands the motor to zero
  first. The loops always end (both are total functions here), and a sensor that never
  reports leaves through the baseline exit with \<^verbatim>\<open>assist(0)\<close> as the last command
  (\<open>rewind_without_samples\<close>). The exit after the regulation loop does not hold the
  claim: the report of the last sample is formatted before \<^verbatim>\<open>assist(0)\<close>, and it
  raises \<^verbatim>\<open>TypeError\<close> when that sample is \<^verbatim>\<open>None\<close>. With a sensor that gives 20 RPM
  once and nothing afterwards, the call on the example lane raises, and the trace holds
  the start of the reverse duty \<open>p > 0\<close> and no later command.
\<close>

theorem rewind_silent_sensor_raises:
  "fst (rewind_until_tension silent_config 50 example_lane) = Some TypeError
     \<and> (\<exists>p. 0 < p
           \<and> trace (snd (rewind_until_tension silent_config 50 example_lane))
               = [AssistCall (- p), SetPin Rwd p])"
proof -
  have "\<exists>p. calculate_pwm_value silent_config 50 True example_lane = Inr p \<and> 0 < p \<and> p \<le> 1"
    by (rule rewind_duty_positive)
       (simp_all add: silent_config_def example_config_def example_lane_def)
  then obtain p where p: "calculate_pwm_value silent_config 50 True example_lane = Inr p"
    "0 < p" "p \<le> 1" by blast
  let ?st1 = "emit (SetPin Rwd p) (emit (AssistCall (- p)) example_lane)"
  have a1: "assist silent_config (- p) example_lane = (None, ?st1)"
    using p(2)
    by (simp add: assist_def drive_def py_div_def silent_config_def example_config_def Let_def)
  let ?st2 = "?st1\<lparr>sensor_calls := 1\<rparr>"
  have b: "baseline_loop silent_config (now ?st1) (Some 0, Some 0) ?st1
      = (Some 20, (Some 20, Some 20), ?st2)"
    by (subst baseline_loop.simps)
       (simp add: sensor_get_rpm_def silent_config_def example_config_def example_lane_def
          sensor_then_silent_def emit_def)
  have ws: "wheel_sensor silent_config = Some sensor_then_silent"
    by (simp add: silent_config_def)
  have sil: "\<forall>j \<ge> sensor_calls ?st2. fst (sensor_then_silent j) = None"
    by (simp add: sensor_then_silent_def)
  from silent_regulation [OF ws sil, of "now ?st1" "20 * tension_drop_fraction silent_config" 20
      "- p" "(Some 20, Some 20)"]
  obtain smp st3 where
    r: "regulation_loop silent_config (now ?st1) (20 * tension_drop_fraction silent_config) 20
          (- p) (Some 20, Some 20) ?st2 = (None, smp, st3)"
       "trace st3 = trace ?st2" "fst smp = None"
    by (auto simp add: silent_config_def example_config_def example_lane_def emit_def)
  obtain m where smp: "smp = (None, m)" using r(3) by (cases smp) auto
  have ph: "rewind_phases silent_config (- p) ?st1 = (Some TypeError, st3)"
    using b r(1) smp by (simp add: rewind_phases_def Let_def)
  have "rewind_until_tension silent_config 50 example_lane = (Some TypeError, st3)"
    using p a1 ph
    by (simp add: rewind_until_tension_def bind_out_def Let_def silent_config_def
        example_config_def)
  moreover have "trace st3 = [AssistCall (- p), SetPin Rwd p]"
    using r(2) by (simp add: emit_def example_lane_def)
  ultimately have "fst (rewind_until_tension silent_config 50 example_lane) = Some TypeError
     \<and> trace (snd (rewind_until_tension silent_config 50 example_lane))
         = [AssistCall (- p), SetPin Rwd p]" by simp
  with p(2) show ?thesis by blast
qed

subsection \<open>Release of the assist-move guard\<close>

text \<open>
  Claim C2 asks that the exclusion flag is cleared on every exit of the guarded block,
  also when the block raises. The open-loop branch does so through its
  \<^verbatim>\<open>try ... finally\<close> (\<open>guard_release_open_loop\<close>), and so does the rewind branch when the
  block ends normally (\<open>guard_release_rewind\<close>). In the rewind branch with a sensor the
  \<^verbatim>\<open>yield\<close> has no \<^verbatim>\<open>finally\<close>: with a sensor that lets the rewind complete and a
  block that raises, the error leaves the guard with \<^verbatim>\<open>_wheel_follow_paused\<close> still set,
  while the same block on the lane without a sensor leaves it cleared.
\<close>

theorem guard_keeps_flag_on_error:
  "fst (with_assist_move slack_config 50 True True failing_block example_lane) = Some BackendError
     \<and> wheel_follow_paused
          (snd (with_assist_move slack_config 50 True True failing_block example_lane))
     \<and> \<not> wheel_follow_paused
          (snd (with_assist_move example_config 50 True True failing_block example_lane))"
proof -
  have ws: "wheel_sensor slack_config \<noteq> None" by (simp add: slack_config_def)
  obtain x s1 where en: "assist_move_enter slack_config 50 True True example_lane = (x, s1)"
    by (cases "assist_move_enter slack_config 50 True True example_lane")
  have "fst (assist_move_enter slack_config 50 True True example_lane) = None"
    using slack_rewind_completes ws by (simp add: assist_move_enter_def Let_def)
  with en have x: "x = None" by simp
  from enter_step [OF en] have fl: "wheel_follow_paused s1" by auto
  have bl: "failing_block s1 = (Some BackendError, s1)" by (simp add: failing_block_def)
  from guard_release_rewind [where block = failing_block, OF ws en [unfolded x] bl]
  have 1: "with_assist_move slack_config 50 True True failing_block example_lane
      = (Some BackendError, s1)" by simp
  have nw: "\<not> (True \<and> wheel_sensor example_config \<noteq> None)" by (simp add: example_config_def)
  have "\<exists>p. calculate_pwm_value example_config 50 True (set_paused True example_lane) = Inr p
          \<and> 0 < p \<and> p \<le> 1"
    by (rule rewind_duty_positive)
       (simp_all add: example_config_def example_lane_def set_paused_def emit_def)
  then obtain p where "calculate_pwm_value example_config 50 True (set_paused True example_lane) = Inr p"
    by blast
  moreover have "fst (assist example_config w s) = None" for w s
    by (rule assist_ok) (simp_all add: example_config_def)
  ultimately have e2: "fst (assist_move_enter example_config 50 True True example_lane) = None"
    using nw by (simp add: assist_move_enter_def Let_def)
  from guard_release_open_loop [OF nw e2, of failing_block]
  have 2: "\<not> wheel_follow_paused
          (snd (with_assist_move example_config 50 True True failing_block example_lane))"
    by blast
  from 1 fl 2 show ?thesis by simp
qed

end
